theory Spec2Isabelle
  imports Main "HOL-Library.Multiset"
begin

section \<open>Staged-upload file lifecycle: the model\<close>

text \<open>
  The development embeds three source units of the repository:
  \<^item> the \<^verbatim>\<open>MulterManager\<close> class, which exists in two versions
    (\<^verbatim>\<open>Node/NodeJWT/fileupload/multer-manager.js\<close> and the later one with private
    fields and a \<^verbatim>\<open>middleware\<close> method);
  \<^item> the methods \<^verbatim>\<open>addFile\<close>, \<^verbatim>\<open>removeFileById\<close> and \<^verbatim>\<open>deleteAllFiles\<close> of the
    \<^verbatim>\<open>Post\<close> schema;
  \<^item> the \<^verbatim>\<open>File\<close> model used by \<^verbatim>\<open>Post\<close>, whose source is not available.

  A promise is modelled by the value it settles with: \<open>Returns v\<close> when it is fulfilled
  with \<open>v\<close>, \<open>Throws msg\<close> when it is rejected with an \<^verbatim>\<open>Error\<close> whose \<^verbatim>\<open>message\<close> is
  \<open>msg\<close>.
\<close>

datatype 'a outcome = Returns 'a | Throws string

subsection \<open>JavaScript operators used by the source\<close>

text \<open>
  \<^verbatim>\<open>a || b\<close> on an optional number: \<^verbatim>\<open>undefined\<close> and \<^verbatim>\<open>0\<close> are falsy. On an optional
  string: \<^verbatim>\<open>undefined\<close> and the empty string are falsy.
\<close>

definition or_number :: "int option \<Rightarrow> int \<Rightarrow> int" where
  "or_number a b = (case a of None \<Rightarrow> b | Some v \<Rightarrow> if v = 0 then b else v)"

definition or_string :: "string option \<Rightarrow> string \<Rightarrow> string" where
  "or_string a b = (case a of None \<Rightarrow> b | Some v \<Rightarrow> if v = [] then b else v)"

text \<open>\<^verbatim>\<open>Array.prototype.indexOf\<close>: the first index of the element, or \<open>-1\<close>.\<close>

fun indexOf :: "'a list \<Rightarrow> 'a \<Rightarrow> int" where
  "indexOf [] x = - 1"
| "indexOf (y # ys) x =
     (if y = x then 0 else (let i = indexOf ys x in if i < 0 then - 1 else i + 1))"

text \<open>
  \<^verbatim>\<open>xs.splice(start, 1)\<close>: a negative \<open>start\<close> counts from the end (clamped at \<open>0\<close>), a
  \<open>start\<close> beyond the end is clamped to the length; at most one element is removed.
\<close>

definition splice1 :: "int \<Rightarrow> 'a list \<Rightarrow> 'a list" where
  "splice1 start xs =
     (let len = int (length xs);
          s = (if start < 0 then max (len + start) 0 else min start len)
      in take (nat s) xs @ drop (Suc (nat s)) xs)"

subsection \<open>The manager's configuration\<close>

record managerOpts =
  opts_clearTmpTime :: "int option"
  opts_clearTmpIntervalTime :: "int option"
  opts_tmpDir :: "string option"
  opts_dstDir :: "string option"

record multerManager =
  clearTmpTime :: int
  clearTmpIntervalTime :: int
  tmpDir :: string
  dstDir :: string

text \<open>
  The constructor of the later version of the class (the one with \<^verbatim>\<open>_clearTemp\<close> and
  \<^verbatim>\<open>middleware\<close>). Times are in milliseconds.
\<close>

definition MulterManager_constructor :: "managerOpts \<Rightarrow> multerManager" where
  "MulterManager_constructor opts =
     \<lparr> clearTmpTime = or_number (opts_clearTmpTime opts) (1000 * 60 * 60 * 5),
       clearTmpIntervalTime = or_number (opts_clearTmpIntervalTime opts) (1000 * 60 * 10),
       tmpDir = or_string (opts_tmpDir opts) ''tmp'',
       dstDir = or_string (opts_dstDir opts) ''data'' \<rparr>"

text \<open>
  The constructor of \<^verbatim>\<open>Node/NodeJWT/fileupload/multer-manager.js\<close>. Its source comments
  read \<^verbatim>\<open>1000 * 5; // 5 hours\<close> and \<^verbatim>\<open>1000; // 1 minute\<close>.
\<close>

definition MulterManager_constructor_fileupload :: "managerOpts \<Rightarrow> multerManager" where
  "MulterManager_constructor_fileupload opts =
     \<lparr> clearTmpTime = or_number (opts_clearTmpTime opts) (1000 * 5),
       clearTmpIntervalTime = or_number (opts_clearTmpIntervalTime opts) 1000,
       tmpDir = or_string (opts_tmpDir opts) ''tmp'',
       dstDir = or_string (opts_dstDir opts) ''data'' \<rparr>"

definition no_opts :: managerOpts where
  "no_opts = \<lparr> opts_clearTmpTime = None, opts_clearTmpIntervalTime = None,
               opts_tmpDir = None, opts_dstDir = None \<rparr>"

subsection \<open>The Staging Area and the sweep\<close>

text \<open>
  An entry of the staging directory, with what the file system answers for it:
  \<open>stat_error\<close> is the error \<^verbatim>\<open>fs.promises.stat\<close> rejects with (if it does), \<open>rm_error\<close>
  the one \<^verbatim>\<open>fs.promises.rm(path, {recursive: true, force: true})\<close> rejects with.
  Times are counted in milliseconds and taken as exact integers.
\<close>

record dirent =
  name :: string
  isDirectory :: bool
  birthtimeMs :: int
  stat_error :: "string option"
  rm_error :: "string option"

record stagingArea =
  entries :: "dirent list"
  readdir_error :: "string option"

text \<open>
  The body of the callback given to \<^verbatim>\<open>files.map\<close> in \<^verbatim>\<open>clearTemp\<close> / \<^verbatim>\<open>_clearTemp\<close>
  (the two versions agree): \<open>Returns True\<close> when the entry has been removed,
  \<open>Returns False\<close> when it is left alone, \<open>Throws\<close> when the callback's promise is
  rejected (the entry then stays).
\<close>

definition clearTemp_file :: "multerManager \<Rightarrow> bool \<Rightarrow> int \<Rightarrow> dirent \<Rightarrow> bool outcome" where
  "clearTemp_file this force date file =
     (case stat_error file of
        Some err \<Rightarrow> Throws err
      | None \<Rightarrow>
          if isDirectory file then
            (let expired = (date - birthtimeMs file \<ge> clearTmpTime this) in
             if force \<or> expired then
               (case rm_error file of Some err \<Rightarrow> Throws err | None \<Rightarrow> Returns True)
             else Returns False)
          else Returns False)"

text \<open>
  One sweep. \<open>date\<close> is the value of \<^verbatim>\<open>Date.now()\<close>. The callbacks run independently
  of each other on distinct paths, so the entries that remain are those whose callback
  did not remove them; a rejection (of \<^verbatim>\<open>readdir\<close> or of a callback) is caught and
  only logged.
\<close>

definition clearTemp :: "multerManager \<Rightarrow> bool \<Rightarrow> int \<Rightarrow> stagingArea \<Rightarrow> stagingArea" where
  "clearTemp this force date area =
     (case readdir_error area of
        Some err \<Rightarrow> area
      | None \<Rightarrow>
          area\<lparr> entries :=
            filter (\<lambda>file. clearTemp_file this force date file \<noteq> Returns True) (entries area) \<rparr>)"

text \<open>
  Sample data: a manager with the defaults; an old plain file, an old and a fresh
  directory, and an old directory whose removal the file system refuses.
\<close>

definition sample_manager :: multerManager where
  "sample_manager = MulterManager_constructor no_opts"

definition old_plain_file :: dirent where
  "old_plain_file = \<lparr> name = ''notes.txt'', isDirectory = False, birthtimeMs = 0,
                      stat_error = None, rm_error = None \<rparr>"

definition old_directory :: dirent where
  "old_directory = \<lparr> name = ''1677797214541'', isDirectory = True, birthtimeMs = 1000,
                     stat_error = None, rm_error = None \<rparr>"

definition fresh_directory :: dirent where
  "fresh_directory = \<lparr> name = ''1677897214541'', isDirectory = True, birthtimeMs = 99999000,
                       stat_error = None, rm_error = None \<rparr>"

definition locked_directory :: dirent where
  "locked_directory = \<lparr> name = ''1677797200000'', isDirectory = True, birthtimeMs = 2000,
                        stat_error = None,
                        rm_error = Some ''EPERM: operation not permitted'' \<rparr>"

definition sample_area :: stagingArea where
  "sample_area = \<lparr> entries = [old_plain_file, old_directory, fresh_directory, locked_directory],
                   readdir_error = None \<rparr>"

subsection \<open>Results, file documents and posts\<close>

text \<open>
  The discriminated result objects \<^verbatim>\<open>{status, model, message}\<close> exchanged between the
  \<^verbatim>\<open>File\<close> model and \<^verbatim>\<open>Post\<close>; a field that is \<^verbatim>\<open>undefined\<close> is \<open>None\<close>.
\<close>

record 'm result =
  status :: string
  model :: "'m option"
  message :: "string option"

text \<open>
  A \<^verbatim>\<open>File\<close> document: its \<^verbatim>\<open>id\<close> (the string form of the ObjectId), the path of its
  bytes in the Permanent Store and its owner.
\<close>

record fileRecord =
  file_id :: string
  file_path :: string
  file_owner :: string

text \<open>The upload descriptor multer produces for one file.\<close>

record multifile =
  fieldname :: string
  originalname :: string
  mimetype :: string
  upload_path :: string
  upload_size :: nat

text \<open>
  A \<^verbatim>\<open>Post\<close> document. \<open>files\<close> is \<open>None\<close> when \<^verbatim>\<open>this.files\<close> is \<^verbatim>\<open>undefined\<close> (the
  methods test \<^verbatim>\<open>!this.files\<close>).
\<close>

record post =
  title :: string
  body :: string
  ownerId :: string
  files :: "string list option"
  accessHoldersIds :: "string list"
  createdDate :: int
  updatedDate :: int

text \<open>The ids a post holds; a post without a \<open>files\<close> array holds none.\<close>

definition files_seq :: "post \<Rightarrow> string list" where
  "files_seq this = (case files this of None \<Rightarrow> [] | Some fs \<Rightarrow> fs)"

text \<open>
  \<^verbatim>\<open>PostSchema.methods.addFile\<close>. The static \<^verbatim>\<open>FileModel.createAndMove\<close> is a parameter:
  a function on the state \<open>'w\<close> of the file collection and the disk. Reading
  \<^verbatim>\<open>res.model.id\<close> when \<^verbatim>\<open>res.model\<close> is \<^verbatim>\<open>undefined\<close> throws a TypeError.
\<close>

definition addFile ::
  "(multifile \<Rightarrow> string \<Rightarrow> 'w \<Rightarrow> fileRecord result outcome \<times> 'w) \<Rightarrow>
   multifile \<Rightarrow> string \<Rightarrow> post \<Rightarrow> 'w \<Rightarrow> fileRecord result outcome \<times> post \<times> 'w" where
  "addFile createAndMove multifile userId this w =
     (case createAndMove multifile userId w of
        (Throws e, w') \<Rightarrow> (Throws e, this, w')
      | (Returns res, w') \<Rightarrow>
          (let this1 = (case files this of None \<Rightarrow> this\<lparr>files := Some []\<rparr> | Some fs \<Rightarrow> this) in
           if status res = ''success'' then
             (case model res of
                None \<Rightarrow> (Throws ''Cannot read properties of undefined (reading 'id')'', this1, w')
              | Some m \<Rightarrow>
                  (Returns res, this1\<lparr>files := Some (files_seq this1 @ [file_id m])\<rparr>, w'))
           else (Returns res, this1, w')))"

text \<open>The result \<^verbatim>\<open>removeFileById\<close> gives for an id the post does not hold.\<close>

definition not_found :: "string \<Rightarrow> fileRecord result" where
  "not_found fid =
     \<lparr> status = ''fail'', model = None,
       message = Some (''Not found file of post with id '' @ fid) \<rparr>"

text \<open>
  \<^verbatim>\<open>removeFileById\<close> after its \<^verbatim>\<open>await\<close>: \<open>out\<close> is what
  \<^verbatim>\<open>FileModel.deleteAndRemoveById(id)\<close> settled with. A rejection propagates; a result
  with status \<^verbatim>\<open>'fail'\<close> is passed on as \<^verbatim>\<open>{status, message}\<close>; otherwise the id is
  looked up again with \<^verbatim>\<open>indexOf\<close> and spliced out of the array as it is at that
  moment.
\<close>

definition removeFileById_resume ::
  "string \<Rightarrow> fileRecord result outcome \<Rightarrow> post \<Rightarrow> fileRecord result outcome \<times> post" where
  "removeFileById_resume fid out this =
     (case out of
        Throws e \<Rightarrow> (Throws e, this)
      | Returns r \<Rightarrow>
          if status r = ''fail'' then
            (Returns \<lparr> status = status r, model = None, message = message r \<rparr>, this)
          else
            (case files this of
               None \<Rightarrow> (Throws ''Cannot read properties of undefined (reading 'indexOf')'', this)
             | Some fs \<Rightarrow>
                 (let index = indexOf fs fid in
                  (Returns \<lparr> status = status r, model = model r, message = None \<rparr>,
                   this\<lparr>files := Some (splice1 index fs)\<rparr>))))"

text \<open>
  \<^verbatim>\<open>PostSchema.methods.removeFileById\<close>, run without interruption. The static
  \<^verbatim>\<open>FileModel.deleteAndRemoveById\<close> is a parameter.
\<close>

definition removeFileById ::
  "(string \<Rightarrow> 'w \<Rightarrow> fileRecord result outcome \<times> 'w) \<Rightarrow>
   string \<Rightarrow> post \<Rightarrow> 'w \<Rightarrow> fileRecord result outcome \<times> post \<times> 'w" where
  "removeFileById deleteAndRemoveById fid this w =
     (if files this = None \<or> fid \<notin> set (files_seq this) then (Returns (not_found fid), this, w)
      else
        (case deleteAndRemoveById fid w of
           (out, w') \<Rightarrow>
             (case removeFileById_resume fid out this of (r, this') \<Rightarrow> (r, this', w'))))"

text \<open>
  The removals of the given ids run to their end one after the other, whatever each of
  them gives: the \<^verbatim>\<open>deleteAndRemoveById\<close> of each settles and its \<^verbatim>\<open>removeFileById\<close>
  resumes. The effect of a \<^verbatim>\<open>deleteAndRemoveById\<close> on the file collection and the disk
  is taken at the moment it settles.
\<close>

fun drain ::
  "(string \<Rightarrow> 'w \<Rightarrow> fileRecord result outcome \<times> 'w) \<Rightarrow> string list \<Rightarrow> post \<Rightarrow> 'w \<Rightarrow>
   post \<times> 'w" where
  "drain deleteAndRemoveById [] this w = (this, w)"
| "drain deleteAndRemoveById (fid # pending) this w =
     (case deleteAndRemoveById fid w of
        (out, w1) \<Rightarrow>
          (case removeFileById_resume fid out this of
             (r, this1) \<Rightarrow> drain deleteAndRemoveById pending this1 w1))"

text \<open>
  \<^verbatim>\<open>await Promise.all(this.files.map(async id => await this.removeFileById(id)))\<close>.
  The \<^verbatim>\<open>map\<close> starts one removal per element of the array; each of them passes the
  membership test at once (the array has not changed yet) and then waits for its
  \<^verbatim>\<open>deleteAndRemoveById\<close>. \<open>settle\<close> takes the ids of the pending removals in the
  order in which they settle. \<^verbatim>\<open>Promise.all\<close> is fulfilled when all removals are
  fulfilled, and rejected by the first removal that is rejected. The rejection reaches
  the \<^verbatim>\<open>await\<close> a few turns of the job queue later: the removals whose
  \<^verbatim>\<open>deleteAndRemoveById\<close> has settled by then still resume (and splice) before
  \<^verbatim>\<open>deleteAllFiles\<close> goes on. \<open>late\<close> is the number of those removals; the others are
  still pending when \<^verbatim>\<open>deleteAllFiles\<close> returns.
\<close>

fun settle ::
  "(string \<Rightarrow> 'w \<Rightarrow> fileRecord result outcome \<times> 'w) \<Rightarrow> string list \<Rightarrow> nat \<Rightarrow> post \<Rightarrow> 'w \<Rightarrow>
   unit outcome \<times> post \<times> 'w" where
  "settle deleteAndRemoveById [] late this w = (Returns (), this, w)"
| "settle deleteAndRemoveById (fid # pending) late this w =
     (case deleteAndRemoveById fid w of
        (out, w1) \<Rightarrow>
          (case removeFileById_resume fid out this of
             (Throws e, this1) \<Rightarrow>
               (case drain deleteAndRemoveById (take late pending) this1 w1 of
                  (this2, w2) \<Rightarrow> (Throws e, this2, w2))
           | (Returns r, this1) \<Rightarrow> settle deleteAndRemoveById pending late this1 w1))"

text \<open>
  \<^verbatim>\<open>PostSchema.methods.deleteAllFiles\<close>. \<open>order\<close> lists the indices of \<^verbatim>\<open>this.files\<close> in
  the order in which the removals settle (a permutation of \<open>[0..<length fs]\<close>; a number
  that is not an index of the array stands for no removal and is skipped), and \<open>late\<close>
  is as in \<open>settle\<close>. The post and the state of the file collection and the disk that
  are returned are those at the moment \<^verbatim>\<open>deleteAllFiles\<close> returns. When \<^verbatim>\<open>this.files\<close> is
  \<^verbatim>\<open>undefined\<close>, \<^verbatim>\<open>this.files.map\<close> throws inside the \<^verbatim>\<open>try\<close>.
\<close>

definition deleteAllFiles ::
  "(string \<Rightarrow> 'w \<Rightarrow> fileRecord result outcome \<times> 'w) \<Rightarrow> nat list \<Rightarrow> nat \<Rightarrow> post \<Rightarrow> 'w \<Rightarrow>
   fileRecord result \<times> post \<times> 'w" where
  "deleteAllFiles deleteAndRemoveById order late this w =
     (case files this of
        None \<Rightarrow>
          (\<lparr> status = ''fail'', model = None,
             message = Some ''Cannot read properties of undefined (reading 'map')'' \<rparr>, this, w)
      | Some fs \<Rightarrow>
          (case settle deleteAndRemoveById
                  (map (\<lambda>i. fs ! i) (filter (\<lambda>i. i < length fs) order)) late this w of
             (Returns u, this', w') \<Rightarrow>
               (\<lparr> status = ''success'', model = None, message = None \<rparr>, this', w')
           | (Throws e, this', w') \<Rightarrow>
               (\<lparr> status = ''fail'', model = None, message = Some e \<rparr>, this', w')))"

subsection \<open>What the deleter does on a list of ids\<close>

text \<open>
  The properties of \<^verbatim>\<open>deleteAllFiles\<close> are stated against the deleter alone. For a list
  of ids on which \<^verbatim>\<open>deleteAndRemoveById\<close> is called one after the other, each call on
  the state the one before has left: what the calls settle with, the state after the
  last of them, and the ids for which the call returned a result that is not
  \<^verbatim>\<open>'fail'\<close> (the removals that go through).
\<close>

fun deleter_outcomes ::
  "(string \<Rightarrow> 'w \<Rightarrow> fileRecord result outcome \<times> 'w) \<Rightarrow> string list \<Rightarrow> 'w \<Rightarrow>
   fileRecord result outcome list" where
  "deleter_outcomes deleteAndRemoveById [] w = []"
| "deleter_outcomes deleteAndRemoveById (fid # ids) w =
     (case deleteAndRemoveById fid w of
        (out, w1) \<Rightarrow> out # deleter_outcomes deleteAndRemoveById ids w1)"

fun store_after ::
  "(string \<Rightarrow> 'w \<Rightarrow> fileRecord result outcome \<times> 'w) \<Rightarrow> string list \<Rightarrow> 'w \<Rightarrow> 'w" where
  "store_after deleteAndRemoveById [] w = w"
| "store_after deleteAndRemoveById (fid # ids) w =
     (case deleteAndRemoveById fid w of
        (out, w1) \<Rightarrow> store_after deleteAndRemoveById ids w1)"

fun ids_removed ::
  "(string \<Rightarrow> 'w \<Rightarrow> fileRecord result outcome \<times> 'w) \<Rightarrow> string list \<Rightarrow> 'w \<Rightarrow> string list" where
  "ids_removed deleteAndRemoveById [] w = []"
| "ids_removed deleteAndRemoveById (fid # ids) w =
     (case deleteAndRemoveById fid w of
        (Throws e, w1) \<Rightarrow> ids_removed deleteAndRemoveById ids w1
      | (Returns r, w1) \<Rightarrow>
          if status r = ''fail'' then ids_removed deleteAndRemoveById ids w1
          else fid # ids_removed deleteAndRemoveById ids w1)"

text \<open>The array \<open>fs\<close> with the first occurrence of each of the ids cut out, in turn.\<close>

definition cut_all :: "string list \<Rightarrow> string list \<Rightarrow> string list" where
  "cut_all fs ids = foldl (\<lambda>xs fid. remove1 fid xs) fs ids"

subsection \<open>The File model\<close>

text \<open>
  Modelled from the spec: the state behind the \<^verbatim>\<open>File\<close> model (\<^verbatim>\<open>./File\<close>, required by
  the \<^verbatim>\<open>Post\<close> schema, is not among the sources). It holds the FileRecords by id, the
  paths present in the Staging Area and in the Permanent Store, and the faults of the
  disk the spec mentions: staged paths whose move fails and permanent paths whose
  deletion fails.
\<close>

record fileStore =
  records :: "(string \<times> fileRecord) list"
  staged :: "string list"
  permanent :: "string list"
  unmovable :: "string list"
  undeletable :: "string list"

text \<open>
  Modelled from the spec: the "fresh identifier" the Commit Protocol allocates (the
  allocator of \<^verbatim>\<open>./File\<close> is missing). Any id that no FileRecord carries would do; this
  one is longer than every id in use.
\<close>

definition fresh_id :: "(string \<times> fileRecord) list \<Rightarrow> string" where
  "fresh_id rs = replicate (Suc (foldr (\<lambda>r n. max (length (fst r)) n) rs 0)) CHR ''f''"

text \<open>
  Modelled from the spec: \<^verbatim>\<open>FileModel.createAndMove(uploadDescriptor, ownerId)\<close>, the
  commit operation of the missing \<^verbatim>\<open>./File\<close>. A staged path that is missing gives
  \<^verbatim>\<open>fail\<close> and no FileRecord; a move that fails gives \<^verbatim>\<open>fail\<close> and leaves the staged
  bytes; otherwise a FileRecord with a fresh id, the owner id and a destination path in
  the Permanent Store is created and the bytes are moved there.
\<close>

definition FileModel_createAndMove ::
  "multifile \<Rightarrow> string \<Rightarrow> fileStore \<Rightarrow> fileRecord result outcome \<times> fileStore" where
  "FileModel_createAndMove multifile userId st =
     (if upload_path multifile \<notin> set (staged st) then
        (Returns \<lparr> status = ''fail'', model = None, message = Some ''staged file is missing'' \<rparr>, st)
      else if upload_path multifile \<in> set (unmovable st) then
        (Returns \<lparr> status = ''fail'', model = None, message = Some ''move failed'' \<rparr>, st)
      else
        (let fid = fresh_id (records st);
             doc = \<lparr> file_id = fid, file_path = ''data/'' @ fid, file_owner = userId \<rparr>
         in (Returns \<lparr> status = ''success'', model = Some doc, message = None \<rparr>,
             st\<lparr> records := (fid, doc) # records st,
                 staged := removeAll (upload_path multifile) (staged st),
                 permanent := file_path doc # permanent st \<rparr>)))"

text \<open>
  Modelled from the spec: \<^verbatim>\<open>FileModel.deleteAndRemoveById(fileId)\<close>, the deletion mirror
  of the missing \<^verbatim>\<open>./File\<close>. It looks the FileRecord up (\<^verbatim>\<open>fail\<close>, "not found", when
  there is none), deletes the bytes in the Permanent Store, then the FileRecord; when the
  deletion of the bytes fails the record is kept and the error reported.
\<close>

definition FileModel_deleteAndRemoveById ::
  "string \<Rightarrow> fileStore \<Rightarrow> fileRecord result outcome \<times> fileStore" where
  "FileModel_deleteAndRemoveById fid st =
     (case map_of (records st) fid of
        None \<Rightarrow>
          (Returns \<lparr> status = ''fail'', model = None, message = Some ''file not found'' \<rparr>, st)
      | Some doc \<Rightarrow>
          if file_path doc \<in> set (undeletable st) then
            (Returns \<lparr> status = ''fail'', model = None, message = Some ''delete failed'' \<rparr>, st)
          else
            (Returns \<lparr> status = ''success'', model = Some doc, message = None \<rparr>,
             st\<lparr> records := filter (\<lambda>kv. fst kv \<noteq> fid) (records st),
                 permanent := removeAll (file_path doc) (permanent st) \<rparr>))"


subsection \<open>The upload middleware\<close>

text \<open>
  The options of \<^verbatim>\<open>middleware\<close>; \<open>opts_fields\<close> is the list of \<^verbatim>\<open>{name, maxCount}\<close>.
  \<^verbatim>\<open>limits\<close> and \<^verbatim>\<open>filters\<close> are only handed to multer.
\<close>

record middlewareOpts =
  opts_fields :: "(string \<times> nat) list option"
  opts_limits :: "nat option"
  opts_filters :: "string option"

datatype uploader = UploadFields "(string \<times> nat) list" | UploadAny

text \<open>\<^verbatim>\<open>if(opts.fields) upload.fields(opts.fields) else upload.any()\<close>; an array is truthy.\<close>

definition middleware_uploader :: "middlewareOpts \<Rightarrow> uploader" where
  "middleware_uploader opts =
     (case opts_fields opts of Some fs \<Rightarrow> UploadFields fs | None \<Rightarrow> UploadAny)"

text \<open>
  What \<^verbatim>\<open>req.files\<close> holds once multer has run: nothing, an array of descriptors
  (\<^verbatim>\<open>any()\<close>), or an object of arrays keyed by field name (\<^verbatim>\<open>fields()\<close>), of which the
  callback reads nothing but a \<^verbatim>\<open>map\<close> property it does not have.
\<close>

datatype reqFiles = NoFiles | FileArray "multifile list" | FileObject

text \<open>
  The multer library on one request, as the library has it. On a request that is not
  \<^verbatim>\<open>multipart/form-data\<close> (\<open>None\<close>) it goes on at once and \<^verbatim>\<open>req.files\<close> stays undefined.
  On a multipart request \<^verbatim>\<open>any()\<close> accepts every file that comes over the wire, whatever
  its field, and \<^verbatim>\<open>req.files\<close> is the array of them in order of arrival; \<^verbatim>\<open>fields()\<close>
  makes \<^verbatim>\<open>req.files\<close> an object.
\<close>

definition multer_run :: "uploader \<Rightarrow> multifile list option \<Rightarrow> reqFiles" where
  "multer_run up request =
     (case request of
        None \<Rightarrow> NoFiles
      | Some incoming \<Rightarrow>
          (case up of UploadAny \<Rightarrow> FileArray incoming | UploadFields spec \<Rightarrow> FileObject))"

text \<open>
  The object \<^verbatim>\<open>files\<close> the callback builds, starting from \<^verbatim>\<open>{}\<close>: its own properties,
  and its prototype when that is no longer \<^verbatim>\<open>Object.prototype\<close> (\<open>None\<close> stands for
  \<^verbatim>\<open>Object.prototype\<close>). A read \<^verbatim>\<open>files[k]\<close> gives the own property \<open>k\<close> if there is one;
  otherwise it goes to the prototype, where \<^verbatim>\<open>__proto__\<close> reads the prototype itself.
\<close>

record filesObject =
  own :: "string \<rightharpoonup> multifile"
  proto :: "multifile option"

text \<open>
  \<^verbatim>\<open>files[k] = file\<close>, where \<^verbatim>\<open>file\<close> is an object. The key \<^verbatim>\<open>__proto__\<close> is the accessor
  inherited from \<^verbatim>\<open>Object.prototype\<close>: the assignment replaces the prototype of \<^verbatim>\<open>files\<close>
  and creates no own property. Every other key becomes (or overwrites) an own property.
\<close>

definition assign :: "string \<Rightarrow> multifile \<Rightarrow> filesObject \<Rightarrow> filesObject" where
  "assign k file obj =
     (if k = ''__proto__'' then obj\<lparr>proto := Some file\<rparr>
      else obj\<lparr>own := (own obj)(k \<mapsto> file)\<rparr>)"

text \<open>
  The callback given to the uploader: \<^verbatim>\<open>req.files.map(file => { files[file.fieldname] =
  file })\<close> on an empty object \<^verbatim>\<open>files\<close>, which then replaces \<^verbatim>\<open>req.files\<close>. Only an array
  has \<^verbatim>\<open>map\<close>.
\<close>

definition middleware_callback :: "reqFiles \<Rightarrow> filesObject outcome" where
  "middleware_callback req_files =
     (case req_files of
        NoFiles \<Rightarrow> Throws ''Cannot read properties of undefined (reading 'map')''
      | FileArray fs \<Rightarrow>
          Returns (foldl (\<lambda>obj file. assign (fieldname file) file obj)
                     \<lparr> own = Map.empty, proto = None \<rparr> fs)
      | FileObject \<Rightarrow> Throws ''req.files.map is not a function'')"

text \<open>
  The function \<^verbatim>\<open>middleware(opts)\<close> returns, applied to one request: the uploader runs,
  then the callback.
\<close>

definition middleware :: "middlewareOpts \<Rightarrow> multifile list option \<Rightarrow> filesObject outcome" where
  "middleware opts request = middleware_callback (multer_run (middleware_uploader opts) request)"

text \<open>
  The last of the files that came under the field name \<open>k\<close>, if any came (stated apart
  from the callback, to compare it with).
\<close>

definition last_under :: "string \<Rightarrow> multifile list \<Rightarrow> multifile option" where
  "last_under k incoming =
     (if filter (\<lambda>f. fieldname f = k) incoming = [] then None
      else Some (last (filter (\<lambda>f. fieldname f = k) incoming)))"

subsection \<open>Sample data\<close>

definition sample_post :: post where
  "sample_post = \<lparr> title = ''Hello'', body = ''world'', ownerId = ''u1'',
                   files = Some [''a'', ''b'', ''c''], accessHoldersIds = [],
                   createdDate = 0, updatedDate = 0 \<rparr>"

definition doc_of :: "string \<Rightarrow> fileRecord" where
  "doc_of fid = \<lparr> file_id = fid, file_path = ''data/'' @ fid, file_owner = ''u1'' \<rparr>"

definition sample_store :: fileStore where
  "sample_store = \<lparr> records = [(''a'', doc_of ''a''), (''b'', doc_of ''b''), (''c'', doc_of ''c'')],
                    staged = [''tmp/1/cat.png''],
                    permanent = [''data/a'', ''data/b'', ''data/c''],
                    unmovable = [], undeletable = [''data/c''] \<rparr>"

definition sample_upload :: multifile where
  "sample_upload = \<lparr> fieldname = ''avatar'', originalname = ''cat.png'',
                     mimetype = ''image/png'', upload_path = ''tmp/1/cat.png'',
                     upload_size = 17421 \<rparr>"

text \<open>A deleter that is rejected on the ids of \<open>bad\<close> and behaves as \<open>dr\<close> on the others.\<close>

definition throwing_on ::
  "string list \<Rightarrow> (string \<Rightarrow> 'w \<Rightarrow> fileRecord result outcome \<times> 'w) \<Rightarrow>
   string \<Rightarrow> 'w \<Rightarrow> fileRecord result outcome \<times> 'w" where
  "throwing_on bad dr fid w = (if fid \<in> set bad then (Throws ''EIO: i/o error'', w) else dr fid w)"

section \<open>Properties\<close>

subsection \<open>The sweep\<close>

lemma clearTemp_entries:
  "readdir_error area = None \<Longrightarrow>
   entries (clearTemp this force date area) =
     filter (\<lambda>file. clearTemp_file this force date file \<noteq> Returns True) (entries area)"
  by (simp add: clearTemp_def)

lemma clearTemp_keeps:
  "file \<in> set (entries area) \<Longrightarrow> clearTemp_file this force date file \<noteq> Returns True \<Longrightarrow>
   file \<in> set (entries (clearTemp this force date area))"
  by (simp add: clearTemp_def split: option.splits)

lemma clearTemp_file_plain:
  "\<not> isDirectory file \<Longrightarrow> clearTemp_file this force date file \<noteq> Returns True"
  by (simp add: clearTemp_file_def split: option.splits)

lemma clearTemp_file_young:
  "date - birthtimeMs file < clearTmpTime this \<Longrightarrow>
   clearTemp_file this False date file \<noteq> Returns True"
  by (simp add: clearTemp_file_def split: option.splits)

lemma clearTemp_file_removes:
  "isDirectory file \<Longrightarrow> stat_error file = None \<Longrightarrow> rm_error file = None \<Longrightarrow>
   force \<or> date - birthtimeMs file \<ge> clearTmpTime this \<Longrightarrow>
   clearTemp_file this force date file = Returns True"
  by (auto simp add: clearTemp_file_def)

lemmas area_defs = sample_area_def old_plain_file_def old_directory_def fresh_directory_def
  locked_directory_def sample_manager_def MulterManager_constructor_def no_opts_def
  or_number_def

text \<open>
  C1, as stated, fails: an entry of the Staging Area that is a plain file and far older
  than \<open>clearTmpTime\<close> (age \<open>100000000\<close> ms against \<open>18000000\<close> ms) is still there
  after a non-forced sweep. So is a directory of that age whose \<^verbatim>\<open>rm\<close> is rejected.
\<close>

theorem C1_old_plain_file_survives:
  "old_plain_file \<in> set (entries sample_area)
   \<and> 100000000 - birthtimeMs old_plain_file \<ge> clearTmpTime sample_manager
   \<and> old_plain_file \<in> set (entries (clearTemp sample_manager False 100000000 sample_area))
   \<and> locked_directory \<in> set (entries sample_area)
   \<and> 100000000 - birthtimeMs locked_directory \<ge> clearTmpTime sample_manager
   \<and> locked_directory \<in> set (entries (clearTemp sample_manager False 100000000 sample_area))"
  by (simp add: area_defs clearTemp_def clearTemp_file_def)

text \<open>
  C1, amended. A non-forced sweep removes every \<^emph>\<open>directory\<close> entry whose age
  (\<open>date - birthtimeMs\<close>) has reached \<open>clearTmpTime\<close>, provided the listing, the
  \<^verbatim>\<open>stat\<close> and the \<^verbatim>\<open>rm\<close> of that entry do not fail; every entry younger than
  \<open>clearTmpTime\<close> is still there afterwards, and so is every entry that is not a
  directory, whatever its age.
\<close>

theorem C1_unforced_sweep:
  assumes "file \<in> set (entries area)"
  shows "(readdir_error area = None \<and> isDirectory file \<and> stat_error file = None
            \<and> rm_error file = None \<and> date - birthtimeMs file \<ge> clearTmpTime this
          \<longrightarrow> file \<notin> set (entries (clearTemp this False date area)))
       \<and> (date - birthtimeMs file < clearTmpTime this
          \<longrightarrow> file \<in> set (entries (clearTemp this False date area)))
       \<and> (\<not> isDirectory file
          \<longrightarrow> file \<in> set (entries (clearTemp this False date area)))"
proof (intro conjI impI)
  assume "readdir_error area = None \<and> isDirectory file \<and> stat_error file = None
            \<and> rm_error file = None \<and> date - birthtimeMs file \<ge> clearTmpTime this"
  then show "file \<notin> set (entries (clearTemp this False date area))"
    by (simp add: clearTemp_entries clearTemp_file_removes)
next
  assume "date - birthtimeMs file < clearTmpTime this"
  then show "file \<in> set (entries (clearTemp this False date area))"
    using assms by (intro clearTemp_keeps clearTemp_file_young)
next
  assume "\<not> isDirectory file"
  then show "file \<in> set (entries (clearTemp this False date area))"
    using assms by (intro clearTemp_keeps clearTemp_file_plain)
qed

theorem C1_unforced_sweep_witness:
  "old_directory \<notin> set (entries (clearTemp sample_manager False 100000000 sample_area))
   \<and> fresh_directory \<in> set (entries (clearTemp sample_manager False 100000000 sample_area))
   \<and> old_plain_file \<in> set (entries (clearTemp sample_manager False 100000000 sample_area))"
proof -
  have mem: "old_directory \<in> set (entries sample_area)"
    "fresh_directory \<in> set (entries sample_area)"
    "old_plain_file \<in> set (entries sample_area)"
    by (simp_all add: sample_area_def)
  have old: "readdir_error sample_area = None \<and> isDirectory old_directory
      \<and> stat_error old_directory = None \<and> rm_error old_directory = None
      \<and> 100000000 - birthtimeMs old_directory \<ge> clearTmpTime sample_manager"
    by (simp add: sample_area_def old_directory_def sample_manager_def
        MulterManager_constructor_def no_opts_def or_number_def)
  have young: "100000000 - birthtimeMs fresh_directory < clearTmpTime sample_manager"
    by (simp add: fresh_directory_def sample_manager_def
        MulterManager_constructor_def no_opts_def or_number_def)
  have plain: "\<not> isDirectory old_plain_file"
    by (simp add: old_plain_file_def)
  show ?thesis
    using C1_unforced_sweep [OF mem(1), where date = 100000000 and this = sample_manager] old
      C1_unforced_sweep [OF mem(2), where date = 100000000 and this = sample_manager] young
      C1_unforced_sweep [OF mem(3), where date = 100000000 and this = sample_manager] plain
    by blast
qed

text \<open>
  C2, as stated, fails: the plain file of the sample Staging Area is still there after
  a forced sweep, and so is the directory whose \<^verbatim>\<open>rm\<close> is rejected.
\<close>

theorem C2_forced_plain_file_survives:
  "old_plain_file \<in> set (entries sample_area)
   \<and> old_plain_file \<in> set (entries (clearTemp sample_manager True 100000000 sample_area))
   \<and> locked_directory \<in> set (entries sample_area)
   \<and> locked_directory \<in> set (entries (clearTemp sample_manager True 100000000 sample_area))"
  by (simp add: area_defs clearTemp_def clearTemp_file_def)

text \<open>
  C2, amended. A forced sweep removes every \<^emph>\<open>directory\<close> entry of the Staging Area,
  whatever its age, provided the listing, the \<^verbatim>\<open>stat\<close> and the \<^verbatim>\<open>rm\<close> of that entry
  do not fail; an entry that is not a directory is still there afterwards.
\<close>

theorem C2_forced_sweep:
  assumes "file \<in> set (entries area)"
  shows "(readdir_error area = None \<and> isDirectory file \<and> stat_error file = None
            \<and> rm_error file = None
          \<longrightarrow> file \<notin> set (entries (clearTemp this True date area)))
       \<and> (\<not> isDirectory file
          \<longrightarrow> file \<in> set (entries (clearTemp this True date area)))"
proof (intro conjI impI)
  assume "readdir_error area = None \<and> isDirectory file \<and> stat_error file = None
            \<and> rm_error file = None"
  then show "file \<notin> set (entries (clearTemp this True date area))"
    by (simp add: clearTemp_entries clearTemp_file_removes)
next
  assume "\<not> isDirectory file"
  then show "file \<in> set (entries (clearTemp this True date area))"
    using assms by (intro clearTemp_keeps clearTemp_file_plain)
qed

theorem C2_forced_sweep_witness:
  "old_directory \<notin> set (entries (clearTemp sample_manager True 0 sample_area))
   \<and> fresh_directory \<notin> set (entries (clearTemp sample_manager True 0 sample_area))
   \<and> old_plain_file \<in> set (entries (clearTemp sample_manager True 0 sample_area))"
proof -
  have mem: "old_directory \<in> set (entries sample_area)"
    "fresh_directory \<in> set (entries sample_area)"
    "old_plain_file \<in> set (entries sample_area)"
    by (simp_all add: sample_area_def)
  have old: "readdir_error sample_area = None \<and> isDirectory old_directory
      \<and> stat_error old_directory = None \<and> rm_error old_directory = None"
    by (simp add: sample_area_def old_directory_def)
  have fresh: "readdir_error sample_area = None \<and> isDirectory fresh_directory
      \<and> stat_error fresh_directory = None \<and> rm_error fresh_directory = None"
    by (simp add: sample_area_def fresh_directory_def)
  have plain: "\<not> isDirectory old_plain_file"
    by (simp add: old_plain_file_def)
  show ?thesis
    using C2_forced_sweep [OF mem(1), where date = 0 and this = sample_manager] old
      C2_forced_sweep [OF mem(2), where date = 0 and this = sample_manager] fresh
      C2_forced_sweep [OF mem(3), where date = 0 and this = sample_manager] plain
    by blast
qed

subsection \<open>The defaults of the configuration\<close>

text \<open>
  C9. When \<^verbatim>\<open>clearTmpTime\<close> and \<^verbatim>\<open>clearTmpIntervalTime\<close> are omitted, the later
  version of the class takes 5 hours and 10 minutes, while the version in
  \<^verbatim>\<open>Node/NodeJWT/fileupload/multer-manager.js\<close> takes 5 seconds and 1 second, against
  its own comments (\<^verbatim>\<open>// 5 hours\<close>, \<^verbatim>\<open>// 1 minute\<close>).
\<close>

theorem C9_defaults:
  "clearTmpTime (MulterManager_constructor (opts\<lparr>opts_clearTmpTime := None\<rparr>))
     = 5 * (60 * 60 * 1000)
   \<and> clearTmpIntervalTime (MulterManager_constructor (opts\<lparr>opts_clearTmpIntervalTime := None\<rparr>))
     = 10 * (60 * 1000)
   \<and> clearTmpTime (MulterManager_constructor_fileupload (opts\<lparr>opts_clearTmpTime := None\<rparr>))
     = 5 * 1000
   \<and> clearTmpIntervalTime
       (MulterManager_constructor_fileupload (opts\<lparr>opts_clearTmpIntervalTime := None\<rparr>))
     = 1 * 1000"
  by (simp add: MulterManager_constructor_def MulterManager_constructor_fileupload_def
      or_number_def)

subsection \<open>Arrays: \<open>indexOf\<close> and \<open>splice\<close>\<close>

lemma indexOf_ge: "- 1 \<le> indexOf xs x"
  by (induction xs) (auto simp: Let_def)

lemma indexOf_notin: "x \<notin> set xs \<Longrightarrow> indexOf xs x = - 1"
  by (induction xs) (auto simp: Let_def)

lemma indexOf_in:
  "x \<in> set xs \<Longrightarrow>
   0 \<le> indexOf xs x \<and> nat (indexOf xs x) < length xs \<and> xs ! nat (indexOf xs x) = x
   \<and> (\<forall>j < nat (indexOf xs x). xs ! j \<noteq> x)"
proof (induction xs)
  case Nil
  then show ?case by simp
next
  case (Cons y ys)
  show ?case
  proof (cases "y = x")
    case True
    then show ?thesis by simp
  next
    case False
    with Cons.prems have in_ys: "x \<in> set ys" by simp
    note ih = Cons.IH [OF in_ys]
    from ih have eq: "indexOf (y # ys) x = indexOf ys x + 1"
      using False by (simp add: Let_def)
    have n: "nat (indexOf ys x + 1) = Suc (nat (indexOf ys x))"
      using ih by linarith
    show ?thesis
      unfolding eq n using ih False
      by (auto simp: less_Suc_eq_0_disj)
  qed
qed

lemma splice1_take_drop:
  assumes "0 \<le> i" and "nat i < length xs"
  shows "splice1 i xs = take (nat i) xs @ drop (Suc (nat i)) xs"
proof -
  from assms have "i \<le> int (length xs)" by linarith
  with assms show ?thesis by (simp add: splice1_def Let_def min_def)
qed

lemma take_drop_first:
  "x \<in> set xs \<Longrightarrow> i < length xs \<Longrightarrow> xs ! i = x \<Longrightarrow> \<forall>j<i. xs ! j \<noteq> x \<Longrightarrow>
   take i xs @ drop (Suc i) xs = remove1 x xs"
proof (induction xs arbitrary: i)
  case Nil
  then show ?case by simp
next
  case (Cons y ys)
  show ?case
  proof (cases i)
    case 0
    with Cons.prems show ?thesis by simp
  next
    case (Suc k)
    with Cons.prems have "y \<noteq> x" by auto
    moreover from Suc Cons.prems have "k < length ys" "ys ! k = x" "\<forall>j<k. ys ! j \<noteq> x"
      by auto
    moreover from this have "x \<in> set ys" by auto
    ultimately show ?thesis using Suc Cons.IH [of k] by simp
  qed
qed

lemma splice1_indexOf:
  assumes "x \<in> set xs"
  shows "splice1 (indexOf xs x) xs = remove1 x xs"
proof -
  note i = indexOf_in [OF assms]
  from i have "splice1 (indexOf xs x) xs
      = take (nat (indexOf xs x)) xs @ drop (Suc (nat (indexOf xs x))) xs"
    by (intro splice1_take_drop) simp_all
  also from i assms have "\<dots> = remove1 x xs"
    by (intro take_drop_first) simp_all
  finally show ?thesis .
qed

subsection \<open>Evaluating the sample data\<close>

lemmas sample_defs = sample_post_def sample_store_def sample_upload_def doc_of_def


subsection \<open>Removing one file\<close>

lemma resume_fail:
  "status r = ''fail'' \<Longrightarrow>
   removeFileById_resume fid (Returns r) this
     = (Returns \<lparr> status = ''fail'', model = None, message = message r \<rparr>, this)"
  by (simp add: removeFileById_resume_def)

lemma resume_throws:
  "removeFileById_resume fid (Throws e) this = (Throws e, this)"
  by (simp add: removeFileById_resume_def)

lemma resume_removed:
  "status r \<noteq> ''fail'' \<Longrightarrow> files this = Some fs \<Longrightarrow> fid \<in> set fs \<Longrightarrow>
   removeFileById_resume fid (Returns r) this
     = (Returns \<lparr> status = status r, model = model r, message = None \<rparr>,
        this\<lparr>files := Some (remove1 fid fs)\<rparr>)"
  by (simp add: removeFileById_resume_def splice1_indexOf)

text \<open>
  C6. For a post whose \<open>files\<close> holds \<open>fid\<close>: when \<^verbatim>\<open>deleteAndRemoveById\<close> returns a result
  that is not a failure (in particular \<^verbatim>\<open>'success'\<close>), \<^verbatim>\<open>removeFileById\<close> cuts the array
  at the index of the first occurrence of \<open>fid\<close>: the ids before and after that index
  stay as they are, in their order, and nothing else of the post changes. When it
  returns \<^verbatim>\<open>'fail'\<close> (or is rejected), the post is returned as it was.
\<close>

theorem C6_removeFileById:
  assumes "files this = Some fs" and "fid \<in> set fs"
    and "deleteAndRemoveById fid w = (out, w')"
  shows "(\<forall>r. out = Returns r \<and> status r \<noteq> ''fail'' \<longrightarrow>
            nat (indexOf fs fid) < length fs \<and> fs ! nat (indexOf fs fid) = fid
            \<and> (\<forall>j < nat (indexOf fs fid). fs ! j \<noteq> fid)
            \<and> removeFileById deleteAndRemoveById fid this w
                = (Returns \<lparr> status = status r, model = model r, message = None \<rparr>,
                   this\<lparr>files :=
                     Some (take (nat (indexOf fs fid)) fs @ drop (Suc (nat (indexOf fs fid))) fs)\<rparr>,
                   w'))
       \<and> (\<forall>r. out = Returns r \<and> status r = ''fail'' \<longrightarrow>
            removeFileById deleteAndRemoveById fid this w
              = (Returns \<lparr> status = ''fail'', model = None, message = message r \<rparr>, this, w'))
       \<and> (\<forall>e. out = Throws e \<longrightarrow>
            removeFileById deleteAndRemoveById fid this w = (Throws e, this, w'))"
proof -
  note i = indexOf_in [OF assms(2)]
  have cut: "take (nat (indexOf fs fid)) fs @ drop (Suc (nat (indexOf fs fid))) fs = remove1 fid fs"
    using i assms(2) by (intro take_drop_first) simp_all
  have removed: "removeFileById deleteAndRemoveById fid this w
      = (Returns \<lparr> status = status r, model = model r, message = None \<rparr>,
         this\<lparr>files :=
           Some (take (nat (indexOf fs fid)) fs @ drop (Suc (nat (indexOf fs fid))) fs)\<rparr>, w')"
    if "out = Returns r \<and> status r \<noteq> ''fail''" for r
    using that assms cut by (simp add: removeFileById_def files_seq_def resume_removed)
  have failed: "removeFileById deleteAndRemoveById fid this w
      = (Returns \<lparr> status = ''fail'', model = None, message = message r \<rparr>, this, w')"
    if "out = Returns r \<and> status r = ''fail''" for r
    using that assms by (simp add: removeFileById_def files_seq_def resume_fail)
  have thrown: "removeFileById deleteAndRemoveById fid this w = (Throws e, this, w')"
    if "out = Throws e" for e
    using that assms by (simp add: removeFileById_def files_seq_def resume_throws)
  from i removed failed thrown show ?thesis by blast
qed

theorem C6_removeFileById_witness:
  "removeFileById FileModel_deleteAndRemoveById ''b'' sample_post sample_store
     = (Returns \<lparr> status = ''success'', model = Some (doc_of ''b''), message = None \<rparr>,
        sample_post\<lparr>files := Some [''a'', ''c'']\<rparr>,
        snd (FileModel_deleteAndRemoveById ''b'' sample_store))
   \<and> removeFileById FileModel_deleteAndRemoveById ''c'' sample_post sample_store
     = (Returns \<lparr> status = ''fail'', model = None, message = Some ''delete failed'' \<rparr>,
        sample_post, sample_store)
   \<and> removeFileById (throwing_on [''a''] FileModel_deleteAndRemoveById) ''a'' sample_post
        sample_store
     = (Throws ''EIO: i/o error'', sample_post, sample_store)"
proof -
  have fs: "files sample_post = Some [''a'', ''b'', ''c'']"
    by (simp add: sample_post_def)
  have b: "FileModel_deleteAndRemoveById ''b'' sample_store
      = (Returns \<lparr> status = ''success'', model = Some (doc_of ''b''), message = None \<rparr>,
         snd (FileModel_deleteAndRemoveById ''b'' sample_store))"
    by (simp add: FileModel_deleteAndRemoveById_def sample_store_def doc_of_def)
  have c: "FileModel_deleteAndRemoveById ''c'' sample_store
      = (Returns \<lparr> status = ''fail'', model = None, message = Some ''delete failed'' \<rparr>,
         sample_store)"
    by (simp add: FileModel_deleteAndRemoveById_def sample_store_def doc_of_def)
  have a: "throwing_on [''a''] FileModel_deleteAndRemoveById ''a'' sample_store
      = (Throws ''EIO: i/o error'', sample_store)"
    by (simp add: throwing_on_def)
  have cut: "take (nat (indexOf [''a'', ''b'', ''c''] ''b'')) [''a'', ''b'', ''c'']
      @ drop (Suc (nat (indexOf [''a'', ''b'', ''c''] ''b''))) [''a'', ''b'', ''c'']
      = [''a'', ''c'']"
    by simp
  have mem: "''a'' \<in> set [''a'', ''b'', ''c'']" "''b'' \<in> set [''a'', ''b'', ''c'']"
    "''c'' \<in> set [''a'', ''b'', ''c'']"
    by simp_all
  from C6_removeFileById [where deleteAndRemoveById = FileModel_deleteAndRemoveById
        and fid = "''b''" and w = sample_store, OF fs mem(2) b]
    C6_removeFileById [where deleteAndRemoveById = FileModel_deleteAndRemoveById
        and fid = "''c''" and w = sample_store, OF fs mem(3) c]
    C6_removeFileById [where deleteAndRemoveById = "throwing_on [''a''] FileModel_deleteAndRemoveById"
        and fid = "''a''" and w = sample_store, OF fs mem(1) a]
  show ?thesis by (simp add: cut)
qed

text \<open>
  C7. For an id the post does not hold (also when the post has no \<open>files\<close> array),
  \<^verbatim>\<open>removeFileById\<close> returns \<^verbatim>\<open>'fail'\<close> with the message "Not found file of post with
  id ...", whatever \<^verbatim>\<open>deleteAndRemoveById\<close> is: it is not called, and the post and the
  state of the file collection and the disk are returned as they were.
\<close>

theorem C7_removeFileById_absent:
  assumes "fid \<notin> set (files_seq this)"
  shows "removeFileById deleteAndRemoveById fid this w
           = (Returns \<lparr> status = ''fail'', model = None,
                        message = Some (''Not found file of post with id '' @ fid) \<rparr>, this, w)"
  using assms by (simp add: removeFileById_def not_found_def)

theorem C7_removeFileById_absent_witness:
  "removeFileById FileModel_deleteAndRemoveById ''zz'' sample_post sample_store
     = (Returns \<lparr> status = ''fail'', model = None,
                  message = Some ''Not found file of post with id zz'' \<rparr>,
        sample_post, sample_store)"
proof -
  have "''zz'' \<notin> set (files_seq sample_post)"
    by (simp add: files_seq_def sample_post_def)
  from C7_removeFileById_absent [OF this, where deleteAndRemoveById = FileModel_deleteAndRemoveById
      and w = sample_store]
  show ?thesis by simp
qed

subsection \<open>Adding a file\<close>

text \<open>
  C8, as stated, fails: on a post whose \<open>files\<close> array is undefined, an \<^verbatim>\<open>addFile\<close> that
  fails (the staged file is missing) still replaces the undefined \<open>files\<close> by an empty
  array, since \<^verbatim>\<open>if(!this.files) this.files = []\<close> runs before the status is tested.
\<close>

theorem C8_failed_addFile_sets_files:
  "addFile FileModel_createAndMove (sample_upload\<lparr>upload_path := ''tmp/9/gone.png''\<rparr>) ''u1''
     (sample_post\<lparr>files := None\<rparr>) sample_store
     = (Returns \<lparr> status = ''fail'', model = None, message = Some ''staged file is missing'' \<rparr>,
        sample_post\<lparr>files := Some []\<rparr>, sample_store)
   \<and> sample_post\<lparr>files := Some []\<rparr> \<noteq> sample_post\<lparr>files := None\<rparr>"
  by (simp add: addFile_def FileModel_createAndMove_def sample_defs)

text \<open>
  C8, amended. When \<^verbatim>\<open>createAndMove\<close> returns a result whose status is not
  \<^verbatim>\<open>'success'\<close>, \<^verbatim>\<open>addFile\<close> returns that result and the ids the post holds are the same
  as before; every other field is unchanged, and the only change to \<open>files\<close> is that an
  undefined array has become the empty array (a post with a \<open>files\<close> array is returned
  exactly as it was).
\<close>

theorem C8_addFile_failure:
  assumes "createAndMove multifile userId w = (Returns res, w')"
    and "status res \<noteq> ''success''"
  shows "addFile createAndMove multifile userId this w
           = (Returns res, this\<lparr>files := Some (files_seq this)\<rparr>, w')
       \<and> files_seq (this\<lparr>files := Some (files_seq this)\<rparr>) = files_seq this
       \<and> (files this \<noteq> None \<longrightarrow> this\<lparr>files := Some (files_seq this)\<rparr> = this)"
  using assms by (auto simp add: addFile_def files_seq_def split: option.splits)

theorem C8_addFile_failure_witness:
  "addFile FileModel_createAndMove (sample_upload\<lparr>upload_path := ''tmp/9/gone.png''\<rparr>) ''u1''
     sample_post sample_store
     = (Returns \<lparr> status = ''fail'', model = None, message = Some ''staged file is missing'' \<rparr>,
        sample_post, sample_store)"
proof -
  have cm: "FileModel_createAndMove (sample_upload\<lparr>upload_path := ''tmp/9/gone.png''\<rparr>) ''u1''
      sample_store
      = (Returns \<lparr> status = ''fail'', model = None, message = Some ''staged file is missing'' \<rparr>,
         sample_store)"
    by (simp add: FileModel_createAndMove_def sample_defs)
  have st: "status \<lparr> status = ''fail'', model = None :: fileRecord option,
      message = Some ''staged file is missing'' \<rparr> \<noteq> ''success''"
    by simp
  have "files sample_post \<noteq> None" by (simp add: sample_post_def)
  with C8_addFile_failure [where createAndMove = FileModel_createAndMove
        and multifile = "sample_upload\<lparr>upload_path := ''tmp/9/gone.png''\<rparr>"
        and userId = "''u1''" and w = sample_store and this = sample_post, OF cm st]
  show ?thesis by simp
qed

subsection \<open>Removing all files\<close>

lemma cut_all_Nil: "cut_all fs [] = fs"
  by (simp add: cut_all_def)

lemma cut_all_Cons: "cut_all fs (fid # ids) = cut_all (remove1 fid fs) ids"
  by (simp add: cut_all_def)

lemma mset_cut_all:
  "mset ids \<subseteq># mset fs \<Longrightarrow> mset (cut_all fs ids) = mset fs - mset ids"
proof (induction ids arbitrary: fs)
  case Nil
  then show ?case by (simp add: cut_all_Nil)
next
  case (Cons x ids)
  from Cons.prems have "mset ids \<subseteq># mset (remove1 x fs)"
    by (simp add: insert_subset_eq_iff)
  from Cons.IH [OF this] show ?case
    by (simp add: cut_all_Cons)
qed

lemma head_held: "mset (c # cs) \<subseteq># mset fs \<Longrightarrow> c \<in> set fs"
  by (metis mset_subset_eq_insertD set_mset_mset mset.simps(2))

lemma tail_held: "mset (c # cs) \<subseteq># mset fs \<Longrightarrow> mset cs \<subseteq># mset (remove1 c fs)"
  by (simp add: insert_subset_eq_iff)

lemma tail_held': "mset (c # cs) \<subseteq># mset fs \<Longrightarrow> mset cs \<subseteq># mset fs"
  by (metis mset.simps(2) mset_subset_eq_insertD subset_mset.less_imp_le)

lemma same_files: "files this = Some fs \<Longrightarrow> this\<lparr>files := Some fs\<rparr> = this"
  by (cases this) simp

lemma drain_eq:
  "files this = Some fs \<Longrightarrow> mset ids \<subseteq># mset fs \<Longrightarrow>
   drain dr ids this w
     = (this\<lparr>files := Some (cut_all fs (ids_removed dr ids w))\<rparr>, store_after dr ids w)"
proof (induction ids arbitrary: this fs w)
  case Nil
  then show ?case by (simp add: cut_all_Nil same_files)
next
  case (Cons c cs)
  note held = head_held [OF Cons.prems(2)]
  obtain out w1 where dr: "dr c w = (out, w1)" by (cases "dr c w")
  show ?case
  proof (cases out)
    case (Throws e)
    with dr Cons.IH [OF Cons.prems(1) tail_held' [OF Cons.prems(2)], of w1] show ?thesis
      by (simp add: resume_throws)
  next
    case (Returns r)
    show ?thesis
    proof (cases "status r = ''fail''")
      case True
      with Returns dr Cons.IH [OF Cons.prems(1) tail_held' [OF Cons.prems(2)], of w1]
      show ?thesis by (simp add: resume_fail)
    next
      case False
      have f1: "files (this\<lparr>files := Some (remove1 c fs)\<rparr>) = Some (remove1 c fs)" by simp
      from False Returns dr Cons.IH [OF f1 tail_held [OF Cons.prems(2)], of w1]
      show ?thesis
        by (simp add: resume_removed [OF False Cons.prems(1) held] cut_all_Cons)
    qed
  qed
qed

lemma settle_quiet:
  "files this = Some fs \<Longrightarrow> mset ids \<subseteq># mset fs \<Longrightarrow>
   \<forall>out \<in> set (deleter_outcomes dr ids w). \<forall>e. out \<noteq> Throws e \<Longrightarrow>
   settle dr ids late this w
     = (Returns (), this\<lparr>files := Some (cut_all fs (ids_removed dr ids w))\<rparr>,
        store_after dr ids w)"
proof (induction ids arbitrary: this fs w)
  case Nil
  then show ?case by (simp add: cut_all_Nil same_files)
next
  case (Cons c cs)
  note held = head_held [OF Cons.prems(2)]
  obtain out w1 where dr: "dr c w = (out, w1)" by (cases "dr c w")
  with Cons.prems(3) have rest: "\<forall>out \<in> set (deleter_outcomes dr cs w1). \<forall>e. out \<noteq> Throws e"
    and "\<forall>e. out \<noteq> Throws e"
    by simp_all
  then obtain r where out: "out = Returns r" by (cases out) simp_all
  show ?case
  proof (cases "status r = ''fail''")
    case True
    with out dr Cons.IH [OF Cons.prems(1) tail_held' [OF Cons.prems(2)] rest]
    show ?thesis by (simp add: resume_fail)
  next
    case False
    have f1: "files (this\<lparr>files := Some (remove1 c fs)\<rparr>) = Some (remove1 c fs)" by simp
    from False out dr Cons.IH [OF f1 tail_held [OF Cons.prems(2)] rest]
    show ?thesis
      by (simp add: resume_removed [OF False Cons.prems(1) held] cut_all_Cons)
  qed
qed

lemma settle_rejected:
  "files this = Some fs \<Longrightarrow> mset ids \<subseteq># mset fs \<Longrightarrow> k < length ids \<Longrightarrow>
   deleter_outcomes dr ids w ! k = Throws e \<Longrightarrow>
   \<forall>j<k. \<forall>e'. deleter_outcomes dr ids w ! j \<noteq> Throws e' \<Longrightarrow>
   settle dr ids late this w
     = (Throws e,
        this\<lparr>files := Some (cut_all fs (ids_removed dr (take (Suc k + late) ids) w))\<rparr>,
        store_after dr (take (Suc k + late) ids) w)"
proof (induction ids arbitrary: this fs w k)
  case Nil
  then show ?case by simp
next
  case (Cons c cs)
  note held = head_held [OF Cons.prems(2)]
  obtain out w1 where dr: "dr c w = (out, w1)" by (cases "dr c w")
  show ?case
  proof (cases k)
    case 0
    with Cons.prems(4) dr have out: "out = Throws e" by simp
    have "mset (take late cs) \<subseteq># mset fs"
      by (metis tail_held' [OF Cons.prems(2)] append_take_drop_id mset_append
          mset_subset_eq_add_left subset_mset.order_trans)
    from drain_eq [OF Cons.prems(1) this, of dr w1] 0 out dr show ?thesis
      by (simp add: resume_throws)
  next
    case (Suc k')
    with Cons.prems(5) dr have quiet: "\<forall>e'. out \<noteq> Throws e'" by auto
    then obtain r where out: "out = Returns r" by (cases out) simp_all
    from Suc Cons.prems(3,4,5) dr
    have k': "k' < length cs" and at: "deleter_outcomes dr cs w1 ! k' = Throws e"
      and before: "\<forall>j<k'. \<forall>e'. deleter_outcomes dr cs w1 ! j \<noteq> Throws e'"
      by auto
    show ?thesis
    proof (cases "status r = ''fail''")
      case True
      with out dr Suc
        Cons.IH [OF Cons.prems(1) tail_held' [OF Cons.prems(2)] k' at before]
      show ?thesis by (simp add: resume_fail)
    next
      case False
      have f1: "files (this\<lparr>files := Some (remove1 c fs)\<rparr>) = Some (remove1 c fs)" by simp
      from False out dr Suc Cons.IH [OF f1 tail_held [OF Cons.prems(2)] k' at before]
      show ?thesis
        by (simp add: resume_removed [OF False Cons.prems(1) held] cut_all_Cons)
    qed
  qed
qed

lemma order_in_range:
  assumes "mset order = mset [0..<length fs]"
  shows "filter (\<lambda>i. i < length fs) order = order"
proof -
  from assms have "set order = set [0..<length fs]" by (rule mset_eq_setD)
  then have "\<forall>i \<in> set order. i < length fs" by simp
  then show ?thesis by simp
qed

lemma mset_calls:
  assumes "mset order = mset [0..<length fs]"
  shows "mset (map (\<lambda>i. fs ! i) order) = mset fs"
proof -
  have "mset (map (\<lambda>i. fs ! i) order) = image_mset (\<lambda>i. fs ! i) (mset order)" by simp
  also have "\<dots> = image_mset (\<lambda>i. fs ! i) (mset [0..<length fs])" by (simp only: assms)
  also have "\<dots> = mset (map (\<lambda>i. fs ! i) [0..<length fs])" by simp
  also have "\<dots> = mset fs" by (simp only: map_nth)
  finally show ?thesis .
qed

lemma ids_removed_sub: "mset (ids_removed dr ids w) \<subseteq># mset ids"
proof (induction ids arbitrary: w)
  case Nil
  then show ?case by simp
next
  case (Cons c cs)
  obtain out w1 where dr: "dr c w = (out, w1)" by (cases "dr c w")
  from Cons.IH [of w1] have "mset (ids_removed dr cs w1) \<subseteq># add_mset c (mset cs)"
    by (meson mset_subset_eq_insertD subset_mset.order_trans subset_mset.order_refl
        mset_subset_eq_add_mset_cancel subset_mset.dual_order.trans multi_psub_of_add_self
        subset_mset.less_imp_le)
  with Cons.IH [of w1] dr show ?case
    by (cases out) simp_all
qed

lemma failed_not_removed:
  "j < length ids \<Longrightarrow> deleter_outcomes dr ids w ! j = Returns r \<Longrightarrow> status r = ''fail'' \<Longrightarrow>
   add_mset (ids ! j) (mset (ids_removed dr ids w)) \<subseteq># mset ids"
proof (induction ids arbitrary: j w)
  case Nil
  then show ?case by simp
next
  case (Cons c cs)
  obtain out w1 where dr: "dr c w = (out, w1)" by (cases "dr c w")
  show ?case
  proof (cases j)
    case 0
    with Cons.prems dr have "out = Returns r" by simp
    with 0 dr Cons.prems(3) ids_removed_sub [of dr cs w1] show ?thesis by simp
  next
    case (Suc j')
    with Cons.prems dr have "j' < length cs" "deleter_outcomes dr cs w1 ! j' = Returns r"
      by simp_all
    from Cons.IH [OF this Cons.prems(3)]
    have ih: "add_mset (cs ! j') (mset (ids_removed dr cs w1)) \<subseteq># mset cs" .
    then have "add_mset (cs ! j') (mset (ids_removed dr cs w1)) \<subseteq># add_mset c (mset cs)"
      by (meson mset_subset_eq_add_mset_cancel subset_mset.order_trans
          multi_psub_of_add_self subset_mset.less_imp_le)
    moreover from ih
    have "add_mset (cs ! j') (add_mset c (mset (ids_removed dr cs w1))) \<subseteq># add_mset c (mset cs)"
      by (simp add: add_mset_commute)
    ultimately show ?thesis using Suc dr
      by (cases out) simp_all
  qed
qed

lemma still_held:
  assumes "add_mset x (mset gone) \<subseteq># mset fs"
  shows "x \<in> set (cut_all fs gone)"
proof -
  from assms have sub: "mset gone \<subseteq># mset fs"
    by (meson mset_subset_eq_insertD subset_mset.less_imp_le subset_mset.order_trans
        multi_psub_of_add_self)
  from assms have "count (mset gone) x < count (mset fs) x"
    by (metis count_add_mset less_eq_Suc_le mset_subset_eq_count)
  then have "x \<in># mset fs - mset gone"
    by (simp add: in_diff_count)
  with mset_cut_all [OF sub] show ?thesis
    by (metis set_mset_mset)
qed

text \<open>
  C3. The removals settle in the order \<open>order\<close>. If the \<open>k\<close>-th of them is the first
  whose \<^verbatim>\<open>deleteAndRemoveById\<close> is rejected, with an error of message \<open>e\<close>, then
  \<^verbatim>\<open>deleteAllFiles\<close> returns \<^verbatim>\<open>{status: 'fail', message: e}\<close>, and nothing is put back:
  with the removals that have settled when it returns (the first \<open>k + 1\<close> and the \<open>late\<close>
  ones after them), the post is the post as it was with exactly the ids cut out whose
  removal went through, and the state of the file collection and the disk is the one
  the \<^verbatim>\<open>deleteAndRemoveById\<close> calls of those removals have left. (A post whose \<open>files\<close>
  is undefined starts no removal.)
\<close>

theorem C3_deleteAllFiles_throw:
  assumes "mset order = mset [0..<length (files_seq this)]"
    and "k < length order"
    and "deleter_outcomes deleteAndRemoveById (map (\<lambda>i. files_seq this ! i) order) w ! k
           = Throws e"
    and "\<forall>j<k. \<forall>e'.
           deleter_outcomes deleteAndRemoveById (map (\<lambda>i. files_seq this ! i) order) w ! j
             \<noteq> Throws e'"
  shows "deleteAllFiles deleteAndRemoveById order late this w
           = (\<lparr> status = ''fail'', model = None, message = Some e \<rparr>,
              this\<lparr>files := Some (cut_all (files_seq this)
                       (ids_removed deleteAndRemoveById
                          (take (Suc k + late) (map (\<lambda>i. files_seq this ! i) order)) w))\<rparr>,
              store_after deleteAndRemoveById
                (take (Suc k + late) (map (\<lambda>i. files_seq this ! i) order)) w)"
proof (cases "files this")
  case None
  then have "files_seq this = []" by (simp add: files_seq_def)
  with assms(1) have "order = []" by simp
  with assms(2) show ?thesis by simp
next
  case (Some fs)
  then have seq: "files_seq this = fs" by (simp add: files_seq_def)
  let ?calls = "map (\<lambda>i. fs ! i) order"
  have sub: "mset ?calls \<subseteq># mset fs"
    using mset_calls [of order fs] assms(1) seq by simp
  have k: "k < length ?calls" using assms(2) by simp
  from settle_rejected [OF Some sub k assms(3) [unfolded seq] assms(4) [unfolded seq], of late]
  show ?thesis
    using Some assms(1) by (simp add: deleteAllFiles_def seq order_in_range)
qed

theorem C3_deleteAllFiles_throw_witness:
  "deleteAllFiles (throwing_on [''b''] FileModel_deleteAndRemoveById) [0, 1, 2] 0
       sample_post (sample_store\<lparr>undeletable := []\<rparr>)
     = (\<lparr> status = ''fail'', model = None, message = Some ''EIO: i/o error'' \<rparr>,
        sample_post\<lparr>files := Some [''b'', ''c'']\<rparr>,
        sample_store\<lparr> undeletable := [],
                       records := [(''b'', doc_of ''b''), (''c'', doc_of ''c'')],
                       permanent := [''data/b'', ''data/c''] \<rparr>)
   \<and> deleteAllFiles (throwing_on [''b''] FileModel_deleteAndRemoveById) [0, 1, 2] 1
       sample_post (sample_store\<lparr>undeletable := []\<rparr>)
     = (\<lparr> status = ''fail'', model = None, message = Some ''EIO: i/o error'' \<rparr>,
        sample_post\<lparr>files := Some [''b'']\<rparr>,
        sample_store\<lparr> undeletable := [],
                       records := [(''b'', doc_of ''b'')],
                       permanent := [''data/b''] \<rparr>)"
proof -
  let ?dr = "throwing_on [''b''] FileModel_deleteAndRemoveById"
  let ?w = "sample_store\<lparr>undeletable := []\<rparr>"
  note defs = sample_defs files_seq_def throwing_on_def FileModel_deleteAndRemoveById_def
  have perm: "mset [0, 1, 2] = mset [0..<length (files_seq sample_post)]"
    by (simp add: defs upt_rec)
  have k: "(1::nat) < length [0, 1, 2 :: nat]"
    by simp
  have at: "deleter_outcomes ?dr (map (\<lambda>i. files_seq sample_post ! i) [0, 1, 2]) ?w ! 1
      = Throws ''EIO: i/o error''"
    by (simp add: defs)
  have before: "\<forall>j<1. \<forall>e'.
      deleter_outcomes ?dr (map (\<lambda>i. files_seq sample_post ! i) [0, 1, 2]) ?w ! j \<noteq> Throws e'"
    by (simp add: defs)
  from C3_deleteAllFiles_throw [OF perm k at before, of 0]
    C3_deleteAllFiles_throw [OF perm k at before, of 1]
  show ?thesis
    by (simp add: defs cut_all_def)
qed

text \<open>
  C4, as stated, fails: a post whose \<open>files\<close> is undefined holds no id, so no removal
  runs and none throws; yet \<^verbatim>\<open>this.files.map\<close> throws inside the \<^verbatim>\<open>try\<close> and
  \<^verbatim>\<open>deleteAllFiles\<close> returns \<^verbatim>\<open>'fail'\<close> with the message of that TypeError.
\<close>

theorem C4_undefined_files_fail:
  "files_seq (sample_post\<lparr>files := None\<rparr>) = []
   \<and> deleteAllFiles FileModel_deleteAndRemoveById [] 0 (sample_post\<lparr>files := None\<rparr>) sample_store
     = (\<lparr> status = ''fail'', model = None,
          message = Some ''Cannot read properties of undefined (reading 'map')'' \<rparr>,
        sample_post\<lparr>files := None\<rparr>, sample_store)"
  by (simp add: files_seq_def deleteAllFiles_def)

text \<open>
  C4, amended. For a post whose \<open>files\<close> array is defined: if no
  \<^verbatim>\<open>deleteAndRemoveById\<close> is rejected, \<^verbatim>\<open>deleteAllFiles\<close> returns \<^verbatim>\<open>{status: 'success'}\<close>,
  with no message and no model, once every removal has settled, also when some of them
  have returned \<^verbatim>\<open>'fail'\<close> (\<^verbatim>\<open>removeFileById\<close> returns \<^verbatim>\<open>'fail'\<close> exactly when its
  \<^verbatim>\<open>deleteAndRemoveById\<close> does); the post is the post as it was with exactly the ids
  cut out whose removal went through, and every id whose removal returned \<^verbatim>\<open>'fail'\<close> is
  still in its \<open>files\<close>.
\<close>

theorem C4_deleteAllFiles_no_throw:
  assumes "files this = Some fs" and "mset order = mset [0..<length fs]"
    and "\<forall>out \<in> set (deleter_outcomes deleteAndRemoveById (map (\<lambda>i. fs ! i) order) w).
           \<forall>e. out \<noteq> Throws e"
  shows "deleteAllFiles deleteAndRemoveById order late this w
           = (\<lparr> status = ''success'', model = None, message = None \<rparr>,
              this\<lparr>files := Some (cut_all fs
                       (ids_removed deleteAndRemoveById (map (\<lambda>i. fs ! i) order) w))\<rparr>,
              store_after deleteAndRemoveById (map (\<lambda>i. fs ! i) order) w)
       \<and> (\<forall>j<length order. \<forall>r.
             deleter_outcomes deleteAndRemoveById (map (\<lambda>i. fs ! i) order) w ! j = Returns r
               \<and> status r = ''fail''
             \<longrightarrow> fs ! (order ! j)
                   \<in> set (cut_all fs
                            (ids_removed deleteAndRemoveById (map (\<lambda>i. fs ! i) order) w)))"
proof -
  let ?calls = "map (\<lambda>i. fs ! i) order"
  have calls: "mset ?calls = mset fs" by (rule mset_calls [OF assms(2)])
  then have sub: "mset ?calls \<subseteq># mset fs" by simp
  from settle_quiet [OF assms(1) sub assms(3), of late]
  have run: "deleteAllFiles deleteAndRemoveById order late this w
      = (\<lparr> status = ''success'', model = None, message = None \<rparr>,
         this\<lparr>files := Some (cut_all fs (ids_removed deleteAndRemoveById ?calls w))\<rparr>,
         store_after deleteAndRemoveById ?calls w)"
    using assms(1) by (simp add: deleteAllFiles_def order_in_range [OF assms(2)])
  have "fs ! (order ! j) \<in> set (cut_all fs (ids_removed deleteAndRemoveById ?calls w))"
    if "j < length order"
      and "deleter_outcomes deleteAndRemoveById ?calls w ! j = Returns r \<and> status r = ''fail''"
    for j r
  proof -
    from that have "add_mset (?calls ! j) (mset (ids_removed deleteAndRemoveById ?calls w))
        \<subseteq># mset ?calls"
      by (intro failed_not_removed [of j ?calls deleteAndRemoveById w r]) simp_all
    with calls that(1) have "add_mset (fs ! (order ! j))
        (mset (ids_removed deleteAndRemoveById ?calls w)) \<subseteq># mset fs"
      by simp
    then show ?thesis by (rule still_held)
  qed
  with run show ?thesis by blast
qed

theorem C4_deleteAllFiles_no_throw_witness:
  "deleter_outcomes FileModel_deleteAndRemoveById [''c'', ''a'', ''b''] sample_store ! 0
     = Returns \<lparr> status = ''fail'', model = None, message = Some ''delete failed'' \<rparr>
   \<and> deleteAllFiles FileModel_deleteAndRemoveById [2, 0, 1] 0 sample_post sample_store
     = (\<lparr> status = ''success'', model = None, message = None \<rparr>,
        sample_post\<lparr>files := Some [''c'']\<rparr>,
        sample_store\<lparr> records := [(''c'', doc_of ''c'')], permanent := [''data/c''] \<rparr>)
   \<and> [''a'', ''b'', ''c''] ! ([2, 0, 1] ! 0) \<in> set [''c'']"
proof -
  let ?fs = "[''a'', ''b'', ''c'']"
  note defs = sample_defs FileModel_deleteAndRemoveById_def
  have fs: "files sample_post = Some ?fs"
    by (simp add: sample_post_def)
  have perm: "mset [2, 0, 1] = mset [0..<length ?fs]"
    by (simp add: upt_rec)
  have calls: "map (\<lambda>i. ?fs ! i) [2, 0, 1] = [''c'', ''a'', ''b'']"
    by simp
  have quiet: "\<forall>out \<in> set (deleter_outcomes FileModel_deleteAndRemoveById
      (map (\<lambda>i. ?fs ! i) [2, 0, 1]) sample_store). \<forall>e. out \<noteq> Throws e"
    by (simp add: defs)
  have failed: "deleter_outcomes FileModel_deleteAndRemoveById [''c'', ''a'', ''b''] sample_store ! 0
      = Returns \<lparr> status = ''fail'', model = None, message = Some ''delete failed'' \<rparr>"
    by (simp add: defs)
  have gone: "cut_all ?fs (ids_removed FileModel_deleteAndRemoveById [''c'', ''a'', ''b''] sample_store)
      = [''c'']"
    by (simp add: defs cut_all_def)
  have left: "store_after FileModel_deleteAndRemoveById [''c'', ''a'', ''b''] sample_store
      = sample_store\<lparr> records := [(''c'', doc_of ''c'')], permanent := [''data/c''] \<rparr>"
    by (simp add: defs)
  note run = C4_deleteAllFiles_no_throw [OF fs perm quiet, of 0, unfolded calls gone left]
  have first: "(0::nat) < length [2, 0, 1 :: nat]" by simp
  have "status \<lparr> status = ''fail'', model = None :: fileRecord option,
      message = Some ''delete failed'' \<rparr> = ''fail''"
    by simp
  with failed have held: "[''a'', ''b'', ''c''] ! ([2, 0, 1] ! 0) \<in> set [''c'']"
    by (intro run [THEN conjunct2, rule_format, OF first]) (rule conjI)
  from run [THEN conjunct1] failed held show ?thesis
    by (intro conjI)
qed

subsection \<open>Adding, then removing\<close>









subsection \<open>The upload middleware\<close>

lemma collapse_own:
  "own (foldl (\<lambda>obj file. assign (fieldname file) file obj) obj0 fs) k
     = (if k = ''__proto__'' then own obj0 k
        else (case last_under k fs of None \<Rightarrow> own obj0 k | Some f \<Rightarrow> Some f))"
  by (induction fs arbitrary: obj0) (auto simp: assign_def last_under_def)

lemma collapse_proto:
  "proto (foldl (\<lambda>obj file. assign (fieldname file) file obj) obj0 fs)
     = (case last_under ''__proto__'' fs of None \<Rightarrow> proto obj0 | Some f \<Rightarrow> Some f)"
  by (induction fs arbitrary: obj0) (auto simp: assign_def last_under_def)

text \<open>
  C10, as stated, fails. With the \<^verbatim>\<open>fields\<close> option absent, a file that arrives under
  the field name \<^verbatim>\<open>__proto__\<close> adds no key: the object that replaces \<^verbatim>\<open>req.files\<close> has no
  own property at all, and the descriptor has become its prototype. And on a request
  that is not multipart there is no array to collapse: the callback throws.
\<close>

theorem C10_proto_field_adds_no_key:
  "middleware \<lparr> opts_fields = None, opts_limits = None, opts_filters = None \<rparr>
       (Some [sample_upload\<lparr>fieldname := ''__proto__''\<rparr>])
     = Returns \<lparr> own = Map.empty, proto = Some (sample_upload\<lparr>fieldname := ''__proto__''\<rparr>) \<rparr>
   \<and> middleware \<lparr> opts_fields = None, opts_limits = None, opts_filters = None \<rparr> None
     = Throws ''Cannot read properties of undefined (reading 'map')''"
  by (simp add: middleware_def middleware_uploader_def multer_run_def middleware_callback_def
      assign_def)

text \<open>
  C10, amended. When the \<^verbatim>\<open>fields\<close> option is absent the middleware uses
  \<^verbatim>\<open>upload.any()\<close>, which accepts every field; on a multipart request it replaces
  \<^verbatim>\<open>req.files\<close> by an object whose own keys are the field names other than \<^verbatim>\<open>__proto__\<close>
  under which a file arrived, each mapped to the last file that arrived under it
  (last-write-wins). Files that arrive under the field name \<^verbatim>\<open>__proto__\<close> add no key; the
  last of them becomes the prototype of the object.
\<close>

theorem C10_middleware_any:
  assumes "opts_fields opts = None"
  shows "middleware_uploader opts = UploadAny
       \<and> middleware opts (Some incoming)
           = Returns \<lparr> own = (\<lambda>k. if k = ''__proto__'' then None else last_under k incoming),
                       proto = last_under ''__proto__'' incoming \<rparr>"
proof -
  let ?obj = "foldl (\<lambda>obj file. assign (fieldname file) file obj)
    \<lparr> own = Map.empty, proto = None \<rparr> incoming"
  have "own ?obj = (\<lambda>k. if k = ''__proto__'' then None else last_under k incoming)"
    by (rule ext) (simp add: collapse_own split: option.splits)
  moreover have "proto ?obj = last_under ''__proto__'' incoming"
    by (simp add: collapse_proto split: option.splits)
  ultimately have "?obj = \<lparr> own = (\<lambda>k. if k = ''__proto__'' then None else last_under k incoming),
      proto = last_under ''__proto__'' incoming \<rparr>"
    by (cases ?obj) simp
  with assms show ?thesis
    by (simp add: middleware_def middleware_uploader_def multer_run_def middleware_callback_def)
qed

theorem C10_middleware_any_witness:
  "middleware_uploader \<lparr> opts_fields = None, opts_limits = None, opts_filters = None \<rparr>
     = UploadAny
   \<and> (\<exists>obj.
        middleware \<lparr> opts_fields = None, opts_limits = None, opts_filters = None \<rparr>
          (Some [sample_upload, sample_upload\<lparr>fieldname := ''doc''\<rparr>,
                 sample_upload\<lparr>originalname := ''dog.png''\<rparr>])
          = Returns obj
        \<and> own obj ''avatar'' = Some (sample_upload\<lparr>originalname := ''dog.png''\<rparr>)
        \<and> own obj ''doc'' = Some (sample_upload\<lparr>fieldname := ''doc''\<rparr>)
        \<and> own obj ''cover'' = None
        \<and> proto obj = None)"
proof -
  let ?opts = "\<lparr> opts_fields = None, opts_limits = None, opts_filters = None \<rparr>"
  let ?incoming = "[sample_upload, sample_upload\<lparr>fieldname := ''doc''\<rparr>,
    sample_upload\<lparr>originalname := ''dog.png''\<rparr>]"
  have absent: "opts_fields ?opts = None" by simp
  have "last_under ''avatar'' ?incoming = Some (sample_upload\<lparr>originalname := ''dog.png''\<rparr>)"
    "last_under ''doc'' ?incoming = Some (sample_upload\<lparr>fieldname := ''doc''\<rparr>)"
    "last_under ''cover'' ?incoming = None"
    "last_under ''__proto__'' ?incoming = None"
    by (simp_all add: last_under_def sample_upload_def)
  with C10_middleware_any [OF absent, of ?incoming] show ?thesis
    by simp
qed

end
